theory Spec2Isabelle
  imports Complex_Main "HOL-Library.Sublist"
begin

section \<open>Python runtime primitives used by the scripts\<close>

text \<open>
  A Python \<open>str\<close> is modelled as a \<open>string\<close>, one \<open>char\<close> per code point
  (code points below 256). \<open>len\<close> is \<open>length\<close>. The exceptions the modelled code
  can raise are values of \<open>error\<close>.
\<close>

datatype error = KeyError | ZeroDivisionError | ProviderError | FileNotFoundError

text \<open>
  \<open>str.isspace\<close> and the regular expression class \<open>\s\<close> agree on a \<open>str\<close>: the
  white space code points below 256 are 9 to 13, 28 to 31, 32, 133 and 160.
\<close>

definition is_space :: "char \<Rightarrow> bool" where
  "is_space c = (c \<in> set [CHR 0x09, CHR 0x0A, CHR 0x0B, CHR 0x0C, CHR 0x0D,
                             CHR 0x1C, CHR 0x1D, CHR 0x1E, CHR 0x1F, CHR 0x20,
                             CHR 0x85, CHR 0xA0])"

text \<open>\<open>s.strip()\<close>: white space removed at both ends.\<close>

definition strip :: "string \<Rightarrow> string" where
  "strip s = rev (dropWhile is_space (rev (dropWhile is_space s)))"

text \<open>
  \<open>re.split(r'\n\s*\n', s)\<close>. A match starts at a newline whose following run of white
  space holds another newline, and (the star being greedy) ends at the last newline of that
  run. The pieces between the matches are returned, the first argument being the piece read
  so far.
\<close>

function re_split_paragraphs :: "string \<Rightarrow> string \<Rightarrow> string list" where
  "re_split_paragraphs cur [] = [cur]"
| "re_split_paragraphs cur (c # cs) =
     (let ws = takeWhile is_space cs in
      if c = CHR 0x0A \<and> CHR 0x0A \<in> set ws
      then cur # re_split_paragraphs []
             (rev (takeWhile (\<lambda>d. d \<noteq> CHR 0x0A) (rev ws)) @ dropWhile is_space cs)
      else re_split_paragraphs (cur @ [c]) cs)"
  by pat_completeness auto
termination
proof (relation "measure (\<lambda>(cur, s). length s)")
  show "wf (measure (\<lambda>(cur, s). length s))" by simp
next
  fix cur :: string and c :: char and cs ws :: string
  assume ws: "ws = takeWhile is_space cs"
  have "length (takeWhile (\<lambda>d. d \<noteq> CHR 0x0A) (rev ws)) \<le> length ws"
    using length_takeWhile_le [of "\<lambda>d. d \<noteq> CHR 0x0A" "rev ws"] by simp
  moreover have "length ws + length (dropWhile is_space cs) = length cs"
    unfolding ws by (metis length_append takeWhile_dropWhile_id)
  ultimately show "((([]::string),
      rev (takeWhile (\<lambda>d. d \<noteq> CHR 0x0A) (rev ws)) @ dropWhile is_space cs), (cur, c # cs))
      \<in> measure (\<lambda>(cur, s). length s)"
    by simp
next
  fix cur :: string and c :: char and cs :: string
  show "((cur @ [c], cs), (cur, c # cs)) \<in> measure (\<lambda>(cur, s). length s)" by simp
qed

text \<open>\<open>re.sub(r'\s+', ' ', s)\<close>: every maximal run of white space becomes one space.\<close>

function re_sub_whitespace :: "string \<Rightarrow> string" where
  "re_sub_whitespace [] = []"
| "re_sub_whitespace (c # cs) =
     (if is_space c then CHR '' '' # re_sub_whitespace (dropWhile is_space cs)
      else c # re_sub_whitespace cs)"
  by pat_completeness auto
termination
  by (relation "measure length") (auto simp: length_dropWhile_le less_Suc_eq_le)

text \<open>
  \<open>re.split(r'[.!?]+', s)\<close>: the pieces between the maximal runs of sentence punctuation,
  the empty pieces at either end included.
\<close>

definition is_terminator :: "char \<Rightarrow> bool" where
  "is_terminator c = (c = CHR ''.'' \<or> c = CHR ''!'' \<or> c = CHR ''?'')"

function re_split_sentences :: "string \<Rightarrow> string \<Rightarrow> string list" where
  "re_split_sentences cur [] = [cur]"
| "re_split_sentences cur (c # cs) =
     (if is_terminator c
      then cur # re_split_sentences [] (dropWhile is_terminator cs)
      else re_split_sentences (cur @ [c]) cs)"
  by pat_completeness auto
termination
  by (relation "measure (\<lambda>(cur, s). length s)")
     (auto simp: length_dropWhile_le less_Suc_eq_le)


text \<open>\<open>' '.join(xs)\<close>.\<close>

fun join_sp :: "string list \<Rightarrow> string" where
  "join_sp [] = []"
| "join_sp [f] = f"
| "join_sp (f # g # fs) = f @ '' '' @ join_sp (g # fs)"

text \<open>\<open>xs[:n]\<close> for a Python integer \<open>n\<close>: a negative \<open>n\<close> counts from the end.\<close>

definition py_slice_to :: "int \<Rightarrow> 'a list \<Rightarrow> 'a list" where
  "py_slice_to n xs = (if 0 \<le> n then take (nat n) xs else take (length xs - nat (- n)) xs)"

text \<open>
  \<open>xs.sort(key=key, reverse=True)\<close>. The sort is stable also when reversed: the list is
  reversed, sorted by a stable ascending sort and reversed again, so elements of equal key
  keep their order.
\<close>

definition py_sort_reverse :: "('a \<Rightarrow> real) \<Rightarrow> 'a list \<Rightarrow> 'a list" where
  "py_sort_reverse key xs = rev (sort_key key (rev xs))"


section \<open>The chunker: \<open>chunk_text\<close> of \<open>scripts/chunk_and_embed.py\<close>\<close>

text \<open>
  The inner loop over the sentences of a paragraph longer than \<open>max_length\<close>. The state is
  \<open>current_chunk\<close> and \<open>valid_chunks\<close>; the lengths are Python integers.
\<close>

fun sentence_loop ::
  "int \<Rightarrow> int \<Rightarrow> string list \<Rightarrow> string \<Rightarrow> string list \<Rightarrow> string \<times> string list" where
  "sentence_loop min_length max_length [] current_chunk valid_chunks =
     (current_chunk, valid_chunks)"
| "sentence_loop min_length max_length (s # ss) current_chunk valid_chunks =
     (let sentence = strip s in
      if sentence = [] then
        sentence_loop min_length max_length ss current_chunk valid_chunks
      else if int (length current_chunk) + int (length sentence) > max_length
              \<and> current_chunk \<noteq> [] then
        sentence_loop min_length max_length ss sentence
          (if int (length current_chunk) \<ge> min_length
           then valid_chunks @ [strip current_chunk] else valid_chunks)
      else
        sentence_loop min_length max_length ss
          (if current_chunk \<noteq> [] then current_chunk @ '' '' @ sentence else sentence)
          valid_chunks)"

text \<open>The outer loop over the paragraphs.\<close>

fun paragraph_loop ::
  "int \<Rightarrow> int \<Rightarrow> string list \<Rightarrow> string list \<Rightarrow> string list" where
  "paragraph_loop min_length max_length [] valid_chunks = valid_chunks"
| "paragraph_loop min_length max_length (p # ps) valid_chunks =
     (let paragraph = strip p in
      if int (length paragraph) < min_length then
        paragraph_loop min_length max_length ps valid_chunks
      else
        let paragraph = re_sub_whitespace paragraph in
        if int (length paragraph) > max_length then
          (case sentence_loop min_length max_length
                  (re_split_sentences [] paragraph) [] valid_chunks of
             (current_chunk, valid_chunks') \<Rightarrow>
               paragraph_loop min_length max_length ps
                 (if current_chunk \<noteq> [] \<and> int (length current_chunk) \<ge> min_length
                  then valid_chunks' @ [strip current_chunk] else valid_chunks'))
        else paragraph_loop min_length max_length ps (valid_chunks @ [paragraph]))"

definition chunk_text :: "string \<Rightarrow> int \<Rightarrow> int \<Rightarrow> string list" where
  "chunk_text text min_length max_length =
     (if text = [] \<or> int (length (strip text)) < min_length then []
      else paragraph_loop min_length max_length
             (re_split_paragraphs [] (strip text)) [])"


section \<open>The indexer: \<open>create_embeddings_batch\<close>, \<open>save_index\<close> and \<open>main\<close>\<close>

text \<open>
  The chunk dictionary that \<open>process_file\<close> builds, with its six keys.
\<close>

record chunk_object =
  c_text :: string
  c_source :: string
  c_chunk_id :: string
  c_length :: nat
  c_file_type :: string
  c_chunk_index :: nat

text \<open>
  The embedding provider, \<open>model.encode(batch_texts)\<close>: an external service that returns
  a list of vectors or raises. Floats are read as reals.
\<close>

type_synonym provider = "string list \<Rightarrow> error + real list list"

text \<open>
  The loop \<open>for i in range(0, len(texts), batch_size)\<close> for a positive step. Besides
  \<open>all_embeddings\<close> the state holds the arguments of the calls of \<open>encode\<close> made so far, in
  order.
\<close>

function batch_loop ::
  "provider \<Rightarrow> string list \<Rightarrow> nat \<Rightarrow> nat \<Rightarrow> real list list \<Rightarrow> string list list
     \<Rightarrow> error + (real list list \<times> string list list)" where
  "batch_loop encode texts batch_size i all_embeddings calls =
     (if batch_size = 0 \<or> length texts \<le> i then Inr (all_embeddings, calls)
      else let batch_texts = take batch_size (drop i texts) in
        case encode batch_texts of
          Inl e \<Rightarrow> Inl e
        | Inr batch_embeddings \<Rightarrow>
            batch_loop encode texts batch_size (i + batch_size)
              (all_embeddings @ batch_embeddings) (calls @ [batch_texts]))"
  by pat_completeness auto
termination
  by (relation "measure (\<lambda>(encode, texts, batch_size, i, all_embeddings, calls). length texts - i)")
     auto

record embed_result =
  r_texts :: "string list"
  r_embeddings :: "real list list"
  r_encode_calls :: "string list list"

text \<open>
  \<open>create_embeddings_batch(model, chunks, batch_size)\<close>. The batch size is a Python
  integer: zero raises in the computation of \<open>total_batches\<close>, and a negative step makes
  the range empty.
\<close>

definition create_embeddings_batch ::
  "provider \<Rightarrow> chunk_object list \<Rightarrow> int \<Rightarrow> error + embed_result" where
  "create_embeddings_batch encode chunks batch_size =
     (if chunks = [] then Inr \<lparr>r_texts = [], r_embeddings = [], r_encode_calls = []\<rparr>
      else
        let texts = map c_text chunks in
        if batch_size = 0 then Inl ZeroDivisionError
        else if batch_size < 0 then
          Inr \<lparr>r_texts = texts, r_embeddings = [], r_encode_calls = []\<rparr>
        else
          (case batch_loop encode texts (nat batch_size) 0 [] [] of
             Inl e \<Rightarrow> Inl e
           | Inr (all_embeddings, calls) \<Rightarrow>
               Inr \<lparr>r_texts = texts, r_embeddings = all_embeddings, r_encode_calls = calls\<rparr>))"

text \<open>\<open>sources[source] += 1\<close>, on a dictionary that keeps insertion order.\<close>

fun count_source :: "(string \<times> nat) list \<Rightarrow> string \<Rightarrow> (string \<times> nat) list" where
  "count_source [] source = [(source, 1)]"
| "count_source ((k, n) # kvs) source =
     (if k = source then (k, n + 1) # kvs else (k, n) # count_source kvs source)"

record processing_stats =
  min_chunk_length :: nat
  max_chunk_length :: nat
  total_sources :: nat
  sources :: "(string \<times> nat) list"

record index_metadata =
  model :: string
  total_chunks :: nat
  embedding_dim :: nat
  stats :: processing_stats
  version :: string

record index_data =
  texts :: "string list"
  embeddings :: "real list list"
  metadata :: index_metadata
  chunks_metadata :: "chunk_object list"

text \<open>
  The dictionary \<open>index_data\<close> that \<open>save_index\<close> builds from its three arguments. The
  creation time and the rounded average length (a clock reading and a float) are left out.
\<close>

definition save_index ::
  "string list \<Rightarrow> real list list \<Rightarrow> chunk_object list \<Rightarrow> index_data" where
  "save_index txts embs chunks =
     (let chunk_lengths = map length txts;
          srcs = foldl count_source [] (map c_source chunks)
      in \<lparr>texts = txts, embeddings = embs,
           metadata = \<lparr>model = ''all-MiniLM-L6-v2'',
             total_chunks = length txts,
             embedding_dim = (if embs \<noteq> [] then length (hd embs) else 0),
             stats = \<lparr>min_chunk_length = (if chunk_lengths \<noteq> [] then Min (set chunk_lengths) else 0),
                       max_chunk_length = (if chunk_lengths \<noteq> [] then Max (set chunk_lengths) else 0),
                       total_sources = length srcs,
                       sources = srcs\<rparr>,
             version = ''7.0.0-local''\<rparr>,
           chunks_metadata = chunks\<rparr>)"

text \<open>
  \<open>os.path.dirname\<close> on a POSIX path: the part before the last slash, without its
  trailing slashes unless it is made of slashes only. A bare file name has the empty
  directory name.
\<close>

definition dirname :: "string \<Rightarrow> string" where
  "dirname p =
     (let head = rev (dropWhile (\<lambda>c. c \<noteq> CHR ''/'') (rev p)) in
      if head \<noteq> [] \<and> \<not> list_all (\<lambda>c. c = CHR ''/'') head
      then rev (dropWhile (\<lambda>c. c = CHR ''/'') (rev head)) else head)"

text \<open>
  How \<open>save_index\<close> writes the file. The file system maps a path to the bytes of the
  file there. \<open>open(output_path, 'w')\<close> truncates the file and gives a buffered file
  object; each \<open>write\<close> of \<open>json.dump\<close> appends to the buffer of that object; the
  runtime moves any front part of the buffer to the file whenever it chooses, and the end
  of the \<open>with\<close> block moves the rest and closes the file.
\<close>

type_synonym filesystem = "string \<rightharpoonup> string"

record io_state =
  files :: filesystem
  open_file :: "(string \<times> string) option"

datatype io_step = Make_dirs string | Open_truncate string | Write_chunk string | Close_file

definition file_content :: "filesystem \<Rightarrow> string \<Rightarrow> string" where
  "file_content fs path = (case fs path of None \<Rightarrow> [] | Some c \<Rightarrow> c)"

fun io_exec :: "io_state \<Rightarrow> io_step \<Rightarrow> io_state" where
  "io_exec st (Make_dirs d) = st"
| "io_exec st (Open_truncate path) =
     st\<lparr>files := (files st)(path \<mapsto> []), open_file := Some (path, [])\<rparr>"
| "io_exec st (Write_chunk s) =
     (case open_file st of
        None \<Rightarrow> st
      | Some (path, buf) \<Rightarrow> st\<lparr>open_file := Some (path, buf @ s)\<rparr>)"
| "io_exec st Close_file =
     (case open_file st of
        None \<Rightarrow> st
      | Some (path, buf) \<Rightarrow>
          st\<lparr>files := (files st)(path \<mapsto> file_content (files st) path @ buf),
             open_file := None\<rparr>)"

text \<open>The runtime moves the first \<open>n\<close> buffered bytes of the open file to the file.\<close>

definition flush_buffer :: "nat \<Rightarrow> io_state \<Rightarrow> io_state" where
  "flush_buffer n st =
     (case open_file st of
        None \<Rightarrow> st
      | Some (path, buf) \<Rightarrow>
          st\<lparr>files := (files st)(path \<mapsto> file_content (files st) path @ take n buf),
             open_file := Some (path, drop n buf)\<rparr>)"

text \<open>
  An execution is a list of events: the program takes its next step, or the runtime
  flushes. A process that is killed leaves the file system reached by the events so far;
  what is still in the buffer is lost. The result is the steps not yet taken and the state.
\<close>

datatype event = Step | Flush nat

fun run_events :: "event list \<Rightarrow> io_step list \<Rightarrow> io_state \<Rightarrow> io_step list \<times> io_state" where
  "run_events [] ops st = (ops, st)"
| "run_events (Step # es) [] st = run_events es [] st"
| "run_events (Step # es) (x # ops) st = run_events es ops (io_exec st x)"
| "run_events (Flush n # es) ops st = run_events es ops (flush_buffer n st)"

text \<open>
  The steps of \<open>save_index\<close> on the file system, lines 331 and 365-366:
  \<open>os.makedirs(os.path.dirname(output_path), exist_ok=True)\<close>, which raises
  \<open>FileNotFoundError\<close> for the empty directory name, then \<open>open\<close>, the writes of
  \<open>json.dump\<close> and the close. The serialiser is a parameter that gives the encoded pieces
  \<open>json.dump\<close> writes, in order. Other failures of the operating system (permissions, a
  full disk) are not modelled.
\<close>

definition save_index_writes ::
  "(index_data \<Rightarrow> string list) \<Rightarrow> index_data \<Rightarrow> string \<Rightarrow> error + io_step list" where
  "save_index_writes json_chunks data output_path =
     (if dirname output_path = [] then Inl FileNotFoundError
      else Inr (Make_dirs (dirname output_path) # Open_truncate output_path
                # map Write_chunk (json_chunks data) @ [Close_file]))"

text \<open>
  The part of \<open>main\<close> from the chunks to the snapshot: nothing is saved when there are no
  chunks or when the embedding step raises; otherwise \<open>save_index\<close> gets the texts and
  embeddings of \<open>create_embeddings_batch\<close> and the chunks themselves.
\<close>

definition main_run ::
  "provider \<Rightarrow> chunk_object list \<Rightarrow> int \<Rightarrow> error + index_data option" where
  "main_run encode chunks batch_size =
     (if chunks = [] then Inr None
      else case create_embeddings_batch encode chunks batch_size of
             Inl e \<Rightarrow> Inl e
           | Inr r \<Rightarrow> Inr (Some (save_index (r_texts r) (r_embeddings r) chunks)))"


section \<open>The filtering pipeline: \<open>VectorTemasManager\<close>\<close>

text \<open>
  A chunk of \<open>enhanced_chunks.json\<close> is a dictionary: any of its keys may be absent. The
  key \<open>similarity_score\<close> is the one the filter adds.
\<close>

record chunk =
  ch_text :: "string option"
  ch_metadata :: "(string \<times> string) list option"
  similarity_score :: "real option"

text \<open>
  The dictionary that \<open>EnhancedChunker.chunk_document\<close> writes for a chunk.
\<close>

definition enhanced_chunk :: "string \<Rightarrow> string \<Rightarrow> string \<Rightarrow> string \<Rightarrow> string \<Rightarrow> chunk" where
  "enhanced_chunk txt eje chunk_type label source_file =
     \<lparr>ch_text = Some txt,
      ch_metadata = Some [(''eje'', eje), (''type'', chunk_type), (''label'', label),
                          (''source_file'', source_file)],
      similarity_score = None\<rparr>"

text \<open>
  The chunk dictionaries are shared, mutable objects. \<open>self.chunks\<close> is modelled as the
  list of these objects (the heap), and a list of chunks that a filter takes or returns as
  the list of their positions in it: the references \<open>[0..<length heap]\<close> stand for
  \<open>self.chunks\<close> itself. A filter that changes a chunk returns the new heap.
\<close>

text \<open>\<open>c['metadata'][k]\<close>, which raises \<open>KeyError\<close> when either key is absent.\<close>

definition meta_field :: "chunk \<Rightarrow> string \<Rightarrow> error + string" where
  "meta_field c k =
     (case ch_metadata c of
        None \<Rightarrow> Inl KeyError
      | Some m \<Rightarrow> (case map_of m k of None \<Rightarrow> Inl KeyError | Some v \<Rightarrow> Inr v))"

text \<open>The comprehension \<open>[c for c in chunks if c['metadata'][k] == v]\<close>.\<close>

fun select_by :: "chunk list \<Rightarrow> string \<Rightarrow> string \<Rightarrow> nat list \<Rightarrow> error + nat list" where
  "select_by heap k v [] = Inr []"
| "select_by heap k v (r # rs) =
     (case meta_field (heap ! r) k of
        Inl e \<Rightarrow> Inl e
      | Inr w \<Rightarrow>
          (case select_by heap k v rs of
             Inl e \<Rightarrow> Inl e
           | Inr out \<Rightarrow> Inr (if w = v then r # out else out)))"

text \<open>Python's truth value of an optional string or list: \<open>None\<close> and the empty one are false.\<close>

definition truthy :: "'a list option \<Rightarrow> bool" where
  "truthy x = (case x of None \<Rightarrow> False | Some s \<Rightarrow> s \<noteq> [])"

definition filter_by_eje :: "chunk list \<Rightarrow> nat list \<Rightarrow> string option \<Rightarrow> error + nat list" where
  "filter_by_eje heap chunks eje_activo =
     (case eje_activo of
        None \<Rightarrow> Inr chunks
      | Some eje \<Rightarrow> if eje = [] then Inr chunks else select_by heap ''eje'' eje chunks)"

definition filter_by_mode :: "chunk list \<Rightarrow> nat list \<Rightarrow> string \<Rightarrow> error + nat list" where
  "filter_by_mode heap chunks mode = select_by heap ''type'' mode chunks"

text \<open>
  The loop of \<open>filter_by_vector_temas\<close> over \<open>self.chunks\<close>. \<open>encode1 s\<close> stands for
  \<open>self.model.encode([s])\<close> and \<open>cosine_similarity a b\<close> for the single entry of the
  matrix \<open>cosine_similarity(a, b)\<close>; both are external. The assignment
  \<open>chunk['similarity_score'] = float(similarity)\<close> updates the chunk in the heap.
\<close>

fun similarity_loop ::
  "(string \<Rightarrow> error + real list) \<Rightarrow> (real list \<Rightarrow> real list \<Rightarrow> real) \<Rightarrow> real list \<Rightarrow> real
     \<Rightarrow> nat list \<Rightarrow> chunk list \<Rightarrow> nat list \<Rightarrow> (error + nat list) \<times> chunk list" where
  "similarity_loop encode1 cosine_similarity temas_embedding threshold [] heap filtered_chunks =
     (Inr filtered_chunks, heap)"
| "similarity_loop encode1 cosine_similarity temas_embedding threshold (r # rs) heap filtered_chunks =
     (case ch_text (heap ! r) of
        None \<Rightarrow> (Inl KeyError, heap)
      | Some t \<Rightarrow>
          (case encode1 t of
             Inl e \<Rightarrow> (Inl e, heap)
           | Inr chunk_embedding \<Rightarrow>
               let similarity = cosine_similarity temas_embedding chunk_embedding in
               if similarity > threshold then
                 similarity_loop encode1 cosine_similarity temas_embedding threshold rs
                   (heap[r := (heap ! r)\<lparr>similarity_score := Some similarity\<rparr>])
                   (filtered_chunks @ [r])
               else
                 similarity_loop encode1 cosine_similarity temas_embedding threshold rs
                   heap filtered_chunks))"

text \<open>
  \<open>filter_by_vector_temas(self, vector_temas, threshold)\<close>: it reads \<open>self.chunks\<close>, and
  sorts the retained chunks by the score stored on them.
\<close>

definition filter_by_vector_temas ::
  "(string \<Rightarrow> error + real list) \<Rightarrow> (real list \<Rightarrow> real list \<Rightarrow> real) \<Rightarrow> chunk list
     \<Rightarrow> string list \<Rightarrow> real \<Rightarrow> (error + nat list) \<times> chunk list" where
  "filter_by_vector_temas encode1 cosine_similarity heap vector_temas threshold =
     (if vector_temas = [] \<or> heap = [] then (Inr [0..<length heap], heap)
      else
        case encode1 (join_sp vector_temas) of
          Inl e \<Rightarrow> (Inl e, heap)
        | Inr temas_embedding \<Rightarrow>
            (case similarity_loop encode1 cosine_similarity temas_embedding threshold
                    [0..<length heap] heap [] of
               (Inl e, heap') \<Rightarrow> (Inl e, heap')
             | (Inr filtered_chunks, heap') \<Rightarrow>
                 if list_all (\<lambda>r. similarity_score (heap' ! r) \<noteq> None) filtered_chunks
                 then (Inr (py_sort_reverse (\<lambda>r. the (similarity_score (heap' ! r)))
                              filtered_chunks), heap')
                 else (Inl KeyError, heap')))"

text \<open>
  \<open>get_filtered_chunks(self, vector_temas, eje_activo, mode, max_chunks)\<close>. The second
  stage calls \<open>self.filter_by_vector_temas(vector_temas)\<close>, with the default threshold and
  without the list \<open>chunks\<close> of the first stage.
\<close>

definition get_filtered_chunks ::
  "(string \<Rightarrow> error + real list) \<Rightarrow> (real list \<Rightarrow> real list \<Rightarrow> real) \<Rightarrow> chunk list
     \<Rightarrow> string list option \<Rightarrow> string option \<Rightarrow> string \<Rightarrow> int
     \<Rightarrow> (error + nat list) \<times> chunk list" where
  "get_filtered_chunks encode1 cosine_similarity heap vector_temas eje_activo mode max_chunks =
     (let chunks = [0..<length heap] in
      case (if truthy eje_activo then filter_by_eje heap chunks eje_activo else Inr chunks) of
        Inl e \<Rightarrow> (Inl e, heap)
      | Inr chunks \<Rightarrow>
          (case (if truthy vector_temas
                 then filter_by_vector_temas encode1 cosine_similarity heap
                        (the vector_temas) (3 / 10)
                 else (Inr chunks, heap)) of
             (Inl e, heap') \<Rightarrow> (Inl e, heap')
           | (Inr chunks, heap') \<Rightarrow>
               (case filter_by_mode heap' chunks mode of
                  Inl e \<Rightarrow> (Inl e, heap')
                | Inr chunks \<Rightarrow> (Inr (py_slice_to max_chunks chunks), heap'))))"


section \<open>Notions used in the statements\<close>






text \<open>
  What the indexer expects of the provider: a call that returns gives one vector for each
  text; and, stronger, a provider that never fails and embeds each text on its own, the
  vectors in the order of the texts.
\<close>

definition one_vector_per_text :: "provider \<Rightarrow> bool" where
  "one_vector_per_text encode =
     (\<forall>ts. case encode ts of Inl e \<Rightarrow> True | Inr vs \<Rightarrow> length vs = length ts)"


text \<open>A chunk dictionary as \<open>process_file\<close> fills it for a \<open>.txt\<close> file.\<close>

definition doc_chunk :: "string \<Rightarrow> string \<Rightarrow> string \<Rightarrow> nat \<Rightarrow> chunk_object" where
  "doc_chunk txt source chunk_id i =
     \<lparr>c_text = txt, c_source = source, c_chunk_id = chunk_id, c_length = length txt,
      c_file_type = ''txt'', c_chunk_index = i\<rparr>"

text \<open>
  The invariant of the write of \<open>save_index\<close>: nothing done yet; the directory made; the
  file open, with what is in the file and what is buffered together being the pieces
  written so far; or the file closed and complete.
\<close>

definition write_inv ::
  "filesystem \<Rightarrow> string \<Rightarrow> string list \<Rightarrow> io_step list \<Rightarrow> io_step list \<Rightarrow> io_state \<Rightarrow> bool" where
  "write_inv fs p pieces ops rest st =
     ((rest = ops \<and> st = \<lparr>files = fs, open_file = None\<rparr>)
      \<or> (rest = tl ops \<and> st = \<lparr>files = fs, open_file = None\<rparr>)
      \<or> (\<exists>j c buf. j \<le> length pieces
            \<and> rest = map Write_chunk (drop j pieces) @ [Close_file]
            \<and> st = \<lparr>files = fs(p \<mapsto> c), open_file = Some (p, buf)\<rparr>
            \<and> c @ buf = concat (take j pieces))
      \<or> (rest = [] \<and> st = \<lparr>files = fs(p \<mapsto> concat pieces), open_file = None\<rparr>))"

text \<open>A chunk carries the tag \<open>k\<close> when \<open>c['metadata'][k]\<close> does not raise.\<close>

definition tagged :: "chunk \<Rightarrow> string \<Rightarrow> bool" where
  "tagged c k = (case meta_field c k of Inl e \<Rightarrow> False | Inr v \<Rightarrow> True)"

text \<open>
  The order a reversed stable sort establishes on positions that came in ascending order:
  higher key first, and the lower position first among equal keys.
\<close>

definition ranked_before :: "(nat \<Rightarrow> real) \<Rightarrow> nat \<Rightarrow> nat \<Rightarrow> bool" where
  "ranked_before key i j = (key i > key j \<or> (key i = key j \<and> i < j))"

text \<open>
  The similarity of chunk \<open>i\<close> to the topics: the cosine of the embedding of the joined
  topics and the embedding of the chunk's text.
\<close>

definition topic_score ::
  "(string \<Rightarrow> real list) \<Rightarrow> (real list \<Rightarrow> real list \<Rightarrow> real) \<Rightarrow> string list \<Rightarrow> chunk list
     \<Rightarrow> nat \<Rightarrow> real" where
  "topic_score emb cosine_similarity vector_temas heap i =
     cosine_similarity (emb (join_sp vector_temas)) (emb (the (ch_text (heap ! i))))"

text \<open>The provider of the manager never fails and gives the vector \<open>emb s\<close> for \<open>s\<close>.\<close>

definition embeds_text :: "(string \<Rightarrow> error + real list) \<Rightarrow> (string \<Rightarrow> real list) \<Rightarrow> bool" where
  "embeds_text encode1 emb = (\<forall>s. encode1 s = Inr (emb s))"


section \<open>Properties of the chunker\<close>

lemmas chunk_eval = chunk_text_def strip_def is_space_def is_terminator_def Let_def

text \<open>
  Claim C10. A text whose stripped length is below \<open>min_length\<close> yields no chunk at all,
  whatever its paragraphs are: the guard on the whole text decides, and no paragraph is
  looked at.
\<close>

theorem chunk_text_short_text_empty:
  "int (length (strip text)) < min_length \<Longrightarrow> chunk_text text min_length max_length = []"
  by (simp add: chunk_text_def)

theorem chunk_text_short_text_empty_witness:
  "int (length (strip (''ab'' @ [CHR 0x0A, CHR 0x0A] @ ''cd''))) < 10
   \<and> chunk_text (''ab'' @ [CHR 0x0A, CHR 0x0A] @ ''cd'') 10 20 = []"
proof -
  have h: "int (length (strip (''ab'' @ [CHR 0x0A, CHR 0x0A] @ ''cd''))) < 10"
    by (simp add: strip_def is_space_def)
  show ?thesis
    using h chunk_text_short_text_empty [OF h, of 20] by simp
qed

text \<open>
  The repository's test \<open>test_min_length_filtering\<close>, run on the model: the short
  paragraph between the two long ones is dropped.
\<close>

lemma chunk_text_test_min_length_filtering:
  "chunk_text (''Long enough paragraph with sufficient content.'' @ [CHR 0x0A, CHR 0x0A]
               @ ''Short.'' @ [CHR 0x0A, CHR 0x0A]
               @ ''Another long enough paragraph with sufficient content.'') 20 200
     = [''Long enough paragraph with sufficient content.'',
        ''Another long enough paragraph with sufficient content.'']"
  by (simp add: chunk_eval)

subsection \<open>Length bounds of the chunks\<close>



















text \<open>
  Two more ways in which a chunk leaves the interval: the joining spaces are not counted by
  the guard of the sentence loop, and the \<open>min_length\<close> guard of a paragraph is applied
  before its white space is collapsed.
\<close>

lemma chunk_text_joined_buffer_example:
  "chunk_text ''ab. c. d. e'' 1 5 = [''ab c d'', ''e''] \<and> (5::int) < int (length ''ab c d'')"
  by (simp add: chunk_eval)

lemma chunk_text_collapsed_paragraph_example:
  "chunk_text ''a          b'' 10 20 = [''a b''] \<and> int (length ''a b'') < 10"
  by (simp add: chunk_eval)


section \<open>Properties of the indexer\<close>

declare batch_loop.simps [simp del]



lemma batch_loop_length:
  assumes enc: "\<And>ts vs. encode ts = Inr vs \<Longrightarrow> length vs = length ts" and bs: "0 < bs"
  shows "batch_loop encode ts0 bs i embs calls = Inr (embs', calls')
         \<Longrightarrow> length embs' = length embs + length (drop i ts0)"
proof (induction "length ts0 - i" arbitrary: i embs calls rule: less_induct)
  case less
  show ?case
  proof (cases "length ts0 \<le> i")
    case True
    then show ?thesis using less.prems bs by (simp add: batch_loop.simps [of encode ts0 bs i])
  next
    case False
    let ?b = "take bs (drop i ts0)"
    have lt: "length ts0 - (i + bs) < length ts0 - i" using False bs by simp
    from less.prems False bs obtain vs where vs: "encode ?b = Inr vs"
      and rec: "batch_loop encode ts0 bs (i + bs) (embs @ vs) (calls @ [?b]) = Inr (embs', calls')"
      by (auto simp: batch_loop.simps [of encode ts0 bs i] Let_def split: sum.splits)
    have "length vs = length ?b" using enc [OF vs] .
    moreover have "length embs' = length (embs @ vs) + length (drop (i + bs) ts0)"
      using less.hyps [OF lt rec] .
    ultimately show ?thesis using False by auto
  qed
qed




text \<open>
  Claim C2, as amended. When a run saves a snapshot, for a positive batch size and a
  provider that returns one vector per text, the texts, the embeddings and the chunk
  records of the snapshot have the same length.
\<close>

theorem main_run_snapshot_aligned:
  assumes "0 < batch_size" and "one_vector_per_text encode"
    and "main_run encode chunks batch_size = Inr (Some snapshot)"
  shows "length (texts snapshot) = length (embeddings snapshot)
       \<and> length (embeddings snapshot) = length (chunks_metadata snapshot)"
proof -
  have enc: "\<And>ts vs. encode ts = Inr vs \<Longrightarrow> length vs = length ts"
  proof -
    fix ts vs assume "encode ts = Inr vs"
    with assms(2) [unfolded one_vector_per_text_def, rule_format, of ts]
    show "length vs = length ts" by simp
  qed
  have bs: "0 < nat batch_size" using assms(1) by simp
  from assms(3) have ne: "chunks \<noteq> []" by (auto simp: main_run_def split: if_splits)
  from assms(3) ne assms(1) obtain embs calls where
    loop: "batch_loop encode (map c_text chunks) (nat batch_size) 0 [] [] = Inr (embs, calls)"
    and snap: "snapshot = save_index (map c_text chunks) embs chunks"
    by (auto simp: main_run_def create_embeddings_batch_def Let_def split: sum.splits prod.splits)
  from batch_loop_length [OF enc bs loop] have "length embs = length chunks" by simp
  then show ?thesis by (simp add: snap save_index_def Let_def)
qed

theorem main_run_snapshot_aligned_witness:
  "(0::int) < 2
   \<and> one_vector_per_text (\<lambda>ts. Inr (map (\<lambda>t. [real (length t)]) ts))
   \<and> main_run (\<lambda>ts. Inr (map (\<lambda>t. [real (length t)]) ts))
         [doc_chunk ''a'' ''f.txt'' ''f_0'' 0, doc_chunk ''bb'' ''f.txt'' ''f_1'' 1, doc_chunk ''ccc'' ''g.txt'' ''g_0'' 0] 2
       = Inr (Some (save_index [''a'', ''bb'', ''ccc''] [[1], [2], [3]]
           [doc_chunk ''a'' ''f.txt'' ''f_0'' 0, doc_chunk ''bb'' ''f.txt'' ''f_1'' 1, doc_chunk ''ccc'' ''g.txt'' ''g_0'' 0]))
   \<and> length (texts (save_index [''a'', ''bb'', ''ccc''] [[1], [2], [3]]
           [doc_chunk ''a'' ''f.txt'' ''f_0'' 0, doc_chunk ''bb'' ''f.txt'' ''f_1'' 1, doc_chunk ''ccc'' ''g.txt'' ''g_0'' 0]))
       = length (embeddings (save_index [''a'', ''bb'', ''ccc''] [[1], [2], [3]]
           [doc_chunk ''a'' ''f.txt'' ''f_0'' 0, doc_chunk ''bb'' ''f.txt'' ''f_1'' 1, doc_chunk ''ccc'' ''g.txt'' ''g_0'' 0]))
   \<and> length (embeddings (save_index [''a'', ''bb'', ''ccc''] [[1], [2], [3]]
           [doc_chunk ''a'' ''f.txt'' ''f_0'' 0, doc_chunk ''bb'' ''f.txt'' ''f_1'' 1, doc_chunk ''ccc'' ''g.txt'' ''g_0'' 0]))
       = length (chunks_metadata (save_index [''a'', ''bb'', ''ccc''] [[1], [2], [3]]
           [doc_chunk ''a'' ''f.txt'' ''f_0'' 0, doc_chunk ''bb'' ''f.txt'' ''f_1'' 1, doc_chunk ''ccc'' ''g.txt'' ''g_0'' 0]))"
proof -
  have h1: "(0::int) < 2" by simp
  have h2: "one_vector_per_text (\<lambda>ts. Inr (map (\<lambda>t. [real (length t)]) ts))"
    by (simp add: one_vector_per_text_def)
  have h3: "main_run (\<lambda>ts. Inr (map (\<lambda>t. [real (length t)]) ts))
         [doc_chunk ''a'' ''f.txt'' ''f_0'' 0, doc_chunk ''bb'' ''f.txt'' ''f_1'' 1, doc_chunk ''ccc'' ''g.txt'' ''g_0'' 0] 2
       = Inr (Some (save_index [''a'', ''bb'', ''ccc''] [[1], [2], [3]]
           [doc_chunk ''a'' ''f.txt'' ''f_0'' 0, doc_chunk ''bb'' ''f.txt'' ''f_1'' 1, doc_chunk ''ccc'' ''g.txt'' ''g_0'' 0]))"
    by (simp add: main_run_def create_embeddings_batch_def doc_chunk_def batch_loop.simps Let_def)
  from main_run_snapshot_aligned [OF h1 h2 h3] h1 h2 h3 show ?thesis by blast
qed

text \<open>
  Claim C2 as stated fails: the batch size comes from the command line as any integer, and
  with a negative one the loop of \<open>create_embeddings_batch\<close> never runs. The run saves a
  snapshot with one text, one chunk record and no embedding.
\<close>

theorem main_run_negative_batch_size_counterexample:
  "one_vector_per_text (\<lambda>ts. Inr (map (\<lambda>t. [real (length t)]) ts))
   \<and> main_run (\<lambda>ts. Inr (map (\<lambda>t. [real (length t)]) ts))
         [doc_chunk ''a'' ''f.txt'' ''f_0'' 0] (- 1)
       = Inr (Some (save_index [''a''] [] [doc_chunk ''a'' ''f.txt'' ''f_0'' 0]))
   \<and> length (texts (save_index [''a''] [] [doc_chunk ''a'' ''f.txt'' ''f_0'' 0])) = 1
   \<and> length (embeddings (save_index [''a''] [] [doc_chunk ''a'' ''f.txt'' ''f_0'' 0])) = 0
   \<and> length (chunks_metadata (save_index [''a''] [] [doc_chunk ''a'' ''f.txt'' ''f_0'' 0])) = 1"
  by (simp add: main_run_def create_embeddings_batch_def doc_chunk_def save_index_def
        one_vector_per_text_def)

subsection \<open>The write of the snapshot\<close>

lemma write_inv_flush:
  assumes "write_inv fs p pieces ops rest st"
  shows "write_inv fs p pieces ops rest (flush_buffer n st)"
proof -
  consider (A) "rest = ops" "st = \<lparr>files = fs, open_file = None\<rparr>"
    | (B) "rest = tl ops" "st = \<lparr>files = fs, open_file = None\<rparr>"
    | (C) j c buf where "j \<le> length pieces"
        "rest = map Write_chunk (drop j pieces) @ [Close_file]"
        "st = \<lparr>files = fs(p \<mapsto> c), open_file = Some (p, buf)\<rparr>"
        "c @ buf = concat (take j pieces)"
    | (D) "rest = []" "st = \<lparr>files = fs(p \<mapsto> concat pieces), open_file = None\<rparr>"
    using assms unfolding write_inv_def by blast
  then show ?thesis
  proof cases
    case A
    then show ?thesis by (simp add: write_inv_def flush_buffer_def)
  next
    case B
    then show ?thesis by (simp add: write_inv_def flush_buffer_def)
  next
    case C
    have "flush_buffer n st = \<lparr>files = fs(p \<mapsto> c @ take n buf), open_file = Some (p, drop n buf)\<rparr>"
      by (simp add: C(3) flush_buffer_def file_content_def)
    moreover have "(c @ take n buf) @ drop n buf = concat (take j pieces)"
      using C(4) by simp
    ultimately show ?thesis
      unfolding write_inv_def using C(1,2) by blast
  next
    case D
    then show ?thesis by (simp add: write_inv_def flush_buffer_def)
  qed
qed


lemma write_inv_step:
  assumes ops: "ops = Make_dirs d # Open_truncate p # map Write_chunk pieces @ [Close_file]"
    and inv: "write_inv fs p pieces ops (x # rest) st"
  shows "write_inv fs p pieces ops rest (io_exec st x)"
proof -
  consider (A) "x # rest = ops" "st = \<lparr>files = fs, open_file = None\<rparr>"
    | (B) "x # rest = tl ops" "st = \<lparr>files = fs, open_file = None\<rparr>"
    | (C) j c buf where "j \<le> length pieces"
        "x # rest = map Write_chunk (drop j pieces) @ [Close_file]"
        "st = \<lparr>files = fs(p \<mapsto> c), open_file = Some (p, buf)\<rparr>"
        "c @ buf = concat (take j pieces)"
    using inv unfolding write_inv_def by blast
  then show ?thesis
  proof cases
    case A
    then have "x = Make_dirs d" "rest = tl ops" using ops by auto
    with A(2) show ?thesis by (simp add: write_inv_def)
  next
    case B
    then have x: "x = Open_truncate p" and rest: "rest = map Write_chunk pieces @ [Close_file]"
      using ops by auto
    have "io_exec st x = \<lparr>files = fs(p \<mapsto> []), open_file = Some (p, [])\<rparr>"
      by (simp add: x B(2))
    moreover have "rest = map Write_chunk (drop 0 pieces) @ [Close_file]" using rest by simp
    moreover have "([]::string) @ [] = concat (take 0 pieces)" by simp
    ultimately show ?thesis unfolding write_inv_def by blast
  next
    case C
    show ?thesis
    proof (cases "j < length pieces")
      case True
      then have dj: "drop j pieces = pieces ! j # drop (Suc j) pieces"
        by (simp add: Cons_nth_drop_Suc)
      with C(2) have x: "x = Write_chunk (pieces ! j)"
        and rest: "rest = map Write_chunk (drop (Suc j) pieces) @ [Close_file]" by auto
      have "io_exec st x = \<lparr>files = fs(p \<mapsto> c), open_file = Some (p, buf @ pieces ! j)\<rparr>"
        by (simp add: x C(3))
      moreover have "c @ (buf @ pieces ! j) = concat (take (Suc j) pieces)"
        using C(4) True by (simp add: take_Suc_conv_app_nth)
      moreover have "Suc j \<le> length pieces" using True by simp
      ultimately show ?thesis unfolding write_inv_def using rest by blast
    next
      case False
      with C(1) have j: "j = length pieces" by simp
      with C(2) have x: "x = Close_file" and rest: "rest = []" by auto
      have "io_exec st x = \<lparr>files = fs(p \<mapsto> c @ buf), open_file = None\<rparr>"
        by (simp add: x C(3) file_content_def)
      moreover have "c @ buf = concat pieces" using C(4) j by simp
      ultimately show ?thesis unfolding write_inv_def using rest by simp
    qed
  qed
qed

lemma write_inv_run:
  assumes ops: "ops = Make_dirs d # Open_truncate p # map Write_chunk pieces @ [Close_file]"
  shows "write_inv fs p pieces ops rest st
         \<Longrightarrow> write_inv fs p pieces ops (fst (run_events es rest st)) (snd (run_events es rest st))"
proof (induction es rest st rule: run_events.induct)
  case (1 ops' st)
  then show ?case by simp
next
  case (2 es st)
  then show ?case by simp
next
  case (3 es x ops' st)
  from write_inv_step [OF ops "3.prems"] "3.IH" show ?case by simp
next
  case (4 n es ops' st)
  from write_inv_flush [OF "4.prems"] "4.IH" show ?case by simp
qed

text \<open>
  Claim C5, as amended. \<open>save_index\<close> writes in place, with no staging file and no
  replace step. When it gets as far as writing, then at every point of every execution:
  before \<open>open\<close> the file at the output path is what it was; once every step is taken it
  holds the whole new serialisation; in between it holds some front part of the new
  serialisation, possibly none of it, and the prior content is gone.
\<close>

theorem save_index_writes_in_place:
  assumes "save_index_writes json_chunks data output_path = Inr ops"
  shows "let (rest, st) = run_events events ops \<lparr>files = fs, open_file = None\<rparr> in
         (if length ops - length rest < 2 then files st output_path = fs output_path
          else if rest = [] then files st output_path = Some (concat (json_chunks data))
          else \<exists>c. files st output_path = Some c \<and> prefix c (concat (json_chunks data)))"
proof -
  let ?pieces = "json_chunks data"
  let ?init = "\<lparr>files = fs, open_file = None\<rparr>"
  from assms have ops: "ops = Make_dirs (dirname output_path) # Open_truncate output_path
      # map Write_chunk ?pieces @ [Close_file]"
    by (simp add: save_index_writes_def split: if_splits)
  obtain rest st where r: "run_events events ops ?init = (rest, st)"
    by (cases "run_events events ops ?init")
  have "write_inv fs output_path ?pieces ops ops ?init" by (simp add: write_inv_def)
  from write_inv_run [OF ops this, of events] r
  have inv: "write_inv fs output_path ?pieces ops rest st" by simp
  have len: "length ops = length ?pieces + 3" by (simp add: ops)
  consider (A) "rest = ops" "st = ?init"
    | (B) "rest = tl ops" "st = ?init"
    | (C) j c buf where "j \<le> length ?pieces"
        "rest = map Write_chunk (drop j ?pieces) @ [Close_file]"
        "st = \<lparr>files = fs(output_path \<mapsto> c), open_file = Some (output_path, buf)\<rparr>"
        "c @ buf = concat (take j ?pieces)"
    | (D) "rest = []" "st = \<lparr>files = fs(output_path \<mapsto> concat ?pieces), open_file = None\<rparr>"
    using inv unfolding write_inv_def by blast
  then have "if length ops - length rest < 2 then files st output_path = fs output_path
          else if rest = [] then files st output_path = Some (concat ?pieces)
          else \<exists>c. files st output_path = Some c \<and> prefix c (concat ?pieces)"
  proof cases
    case A
    then show ?thesis by simp
  next
    case B
    then show ?thesis by (simp add: ops)
  next
    case C
    have "length rest = length ?pieces - j + 1" by (simp add: C(2))
    with len C(1) have n: "\<not> length ops - length rest < 2" by simp
    have ne: "rest \<noteq> []" by (simp add: C(2))
    have "concat ?pieces = concat (take j ?pieces) @ concat (drop j ?pieces)"
      by (metis append_take_drop_id concat_append)
    then have "prefix c (concat ?pieces)" using C(4) by (metis append.assoc prefixI)
    with n ne C(3) show ?thesis by simp
  next
    case D
    with len show ?thesis by simp
  qed
  with r show ?thesis by simp
qed

theorem save_index_writes_in_place_witness:
  "save_index_writes (\<lambda>d. [''{'', ''}''])
       (save_index [''a''] [[1]] [doc_chunk ''a'' ''f.txt'' ''f_0'' 0]) ''embeddings/index.json''
     = Inr [Make_dirs ''embeddings'', Open_truncate ''embeddings/index.json'',
            Write_chunk ''{'', Write_chunk ''}'', Close_file]
   \<and> (let (rest, st) = run_events [Step, Step, Step, Step, Flush 1]
            [Make_dirs ''embeddings'', Open_truncate ''embeddings/index.json'',
             Write_chunk ''{'', Write_chunk ''}'', Close_file]
            \<lparr>files = [''embeddings/index.json'' \<mapsto> ''OLD''], open_file = None\<rparr> in
        (if length [Make_dirs ''embeddings'', Open_truncate ''embeddings/index.json'',
                    Write_chunk ''{'', Write_chunk ''}'', Close_file] - length rest < 2
         then files st ''embeddings/index.json''
                = [''embeddings/index.json'' \<mapsto> ''OLD''] ''embeddings/index.json''
         else if rest = []
         then files st ''embeddings/index.json''
                = Some (concat ((\<lambda>d. [''{'', ''}''])
                    (save_index [''a''] [[1]] [doc_chunk ''a'' ''f.txt'' ''f_0'' 0])))
         else \<exists>c. files st ''embeddings/index.json'' = Some c
                \<and> prefix c (concat ((\<lambda>d. [''{'', ''}''])
                    (save_index [''a''] [[1]] [doc_chunk ''a'' ''f.txt'' ''f_0'' 0])))))"
proof -
  have h: "save_index_writes (\<lambda>d. [''{'', ''}''])
       (save_index [''a''] [[1]] [doc_chunk ''a'' ''f.txt'' ''f_0'' 0]) ''embeddings/index.json''
     = Inr [Make_dirs ''embeddings'', Open_truncate ''embeddings/index.json'',
            Write_chunk ''{'', Write_chunk ''}'', Close_file]"
    by (simp add: save_index_writes_def dirname_def)
  from save_index_writes_in_place [OF h,
      of "[Step, Step, Step, Step, Flush 1]" "[''embeddings/index.json'' \<mapsto> ''OLD'']"] h
  show ?thesis by blast
qed

text \<open>
  Claim C5 as stated fails. With the default output path and a prior snapshot there, a
  process killed right after \<open>open\<close> leaves an empty file, and one killed after the
  runtime flushed one byte leaves that byte: in both cases neither the prior snapshot nor
  the new one. Only the complete run leaves the new snapshot.
\<close>

theorem save_index_not_atomic_counterexample:
  "save_index_writes (\<lambda>d. [''{'', ''}''])
       (save_index [''a''] [[1]] [doc_chunk ''a'' ''f.txt'' ''f_0'' 0]) ''embeddings/index.json''
     = Inr [Make_dirs ''embeddings'', Open_truncate ''embeddings/index.json'',
            Write_chunk ''{'', Write_chunk ''}'', Close_file]
   \<and> files (snd (run_events [Step, Step]
            [Make_dirs ''embeddings'', Open_truncate ''embeddings/index.json'',
             Write_chunk ''{'', Write_chunk ''}'', Close_file]
            \<lparr>files = [''embeddings/index.json'' \<mapsto> ''OLD''], open_file = None\<rparr>))
         ''embeddings/index.json'' = Some []
   \<and> files (snd (run_events [Step, Step, Step, Step, Flush 1]
            [Make_dirs ''embeddings'', Open_truncate ''embeddings/index.json'',
             Write_chunk ''{'', Write_chunk ''}'', Close_file]
            \<lparr>files = [''embeddings/index.json'' \<mapsto> ''OLD''], open_file = None\<rparr>))
         ''embeddings/index.json'' = Some ''{''
   \<and> files (snd (run_events [Step, Step, Step, Step, Step]
            [Make_dirs ''embeddings'', Open_truncate ''embeddings/index.json'',
             Write_chunk ''{'', Write_chunk ''}'', Close_file]
            \<lparr>files = [''embeddings/index.json'' \<mapsto> ''OLD''], open_file = None\<rparr>))
         ''embeddings/index.json'' = Some ''{}''
   \<and> ([] :: string) \<noteq> ''OLD'' \<and> ([] :: string) \<noteq> ''{}''
   \<and> ''{'' \<noteq> ''OLD'' \<and> ''{'' \<noteq> ''{}''"
  by (simp add: save_index_writes_def dirname_def flush_buffer_def file_content_def)

text \<open>
  A bare file name as output path never reaches \<open>open\<close>: \<open>os.makedirs\<close> raises on
  the empty directory name.
\<close>

lemma save_index_writes_bare_file_name:
  "save_index_writes json_chunks data ''index.json'' = Inl FileNotFoundError"
  by (simp add: save_index_writes_def dirname_def)


section \<open>Properties of the filtering pipeline\<close>

lemmas manager_eval =
  get_filtered_chunks_def filter_by_vector_temas_def filter_by_eje_def filter_by_mode_def
  truthy_def enhanced_chunk_def meta_field_def py_sort_reverse_def py_slice_to_def

subsection \<open>The tag filters\<close>


lemma meta_field_error: "meta_field c k = Inl e \<Longrightarrow> e = KeyError"
  by (auto simp: meta_field_def split: option.splits)

lemma select_by_result:
  "select_by heap k v rs =
     (if list_all (\<lambda>r. tagged (heap ! r) k) rs
      then Inr (filter (\<lambda>r. meta_field (heap ! r) k = Inr v) rs)
      else Inl KeyError)"
proof (induction rs)
  case Nil
  then show ?case by simp
next
  case (Cons r rs)
  show ?case
  proof (cases "meta_field (heap ! r) k")
    case (Inl e)
    then have "e = KeyError" by (rule meta_field_error)
    with Inl show ?thesis by (simp add: tagged_def)
  next
    case (Inr w)
    then show ?thesis using Cons.IH by (simp add: tagged_def)
  qed
qed

text \<open>
  Claim C9, as amended. \<open>filter_by_mode\<close> raises \<open>KeyError\<close> as soon as one of the chunks
  lacks the type tag, and otherwise returns the chunks whose type tag is the mode, in
  order. \<open>filter_by_eje\<close> does the same with the axis tag, except that without an axis
  (absent or empty) it returns its input and reads no chunk.
\<close>

theorem tag_filters_raise_on_missing_tag:
  "filter_by_mode heap chunks mode =
     (if list_all (\<lambda>r. tagged (heap ! r) ''type'') chunks
      then Inr (filter (\<lambda>r. meta_field (heap ! r) ''type'' = Inr mode) chunks)
      else Inl KeyError)
   \<and> filter_by_eje heap chunks eje_activo =
     (if truthy eje_activo
      then (if list_all (\<lambda>r. tagged (heap ! r) ''eje'') chunks
            then Inr (filter (\<lambda>r. meta_field (heap ! r) ''eje'' = Inr (the eje_activo)) chunks)
            else Inl KeyError)
      else Inr chunks)"
  by (simp add: filter_by_mode_def filter_by_eje_def truthy_def select_by_result
           split: option.splits)

text \<open>
  Claim C9 as stated fails: a chunk whose metadata has no \<open>eje\<close> (or no \<open>type\<close>) makes the
  whole filter call raise, although the other chunk carries the tag.
\<close>

theorem tag_filter_missing_tag_counterexample:
  "filter_by_eje
     [\<lparr>ch_text = Some ''a'', ch_metadata = Some [(''type'', ''theory'')], similarity_score = None\<rparr>,
      enhanced_chunk ''b'' ''U1'' ''theory'' ''U1_chunk_1'' ''f.txt'']
     [0, 1] (Some ''U1'') = Inl KeyError
   \<and> filter_by_mode
     [\<lparr>ch_text = Some ''a'', ch_metadata = Some [(''eje'', ''U1'')], similarity_score = None\<rparr>,
      enhanced_chunk ''b'' ''U1'' ''theory'' ''U1_chunk_1'' ''f.txt'']
     [0, 1] ''theory'' = Inl KeyError"
  by (simp add: manager_eval)

subsection \<open>The pipeline without topics and without an axis\<close>

text \<open>
  Claim C6, as amended. Without topics and without an axis, \<open>get_filtered_chunks\<close> still
  applies the mode filter: when every chunk carries a type tag it returns the chunks whose
  type tag is the mode, in the order of \<open>self.chunks\<close>, cut by \<open>[:max_chunks]\<close>, and leaves
  the chunks as they were.
\<close>

theorem get_filtered_chunks_mode_only:
  assumes "\<not> truthy vector_temas" and "\<not> truthy eje_activo"
    and "list_all (\<lambda>r. tagged (heap ! r) ''type'') [0..<length heap]"
  shows "get_filtered_chunks encode1 cosine_similarity heap vector_temas eje_activo mode max_chunks
     = (Inr (py_slice_to max_chunks
               (filter (\<lambda>r. meta_field (heap ! r) ''type'' = Inr mode) [0..<length heap])),
        heap)"
  using assms
  by (simp add: get_filtered_chunks_def filter_by_mode_def select_by_result)

theorem get_filtered_chunks_mode_only_witness:
  "\<not> truthy (None :: string list option) \<and> \<not> truthy (None :: string option)
   \<and> list_all (\<lambda>r. tagged ([enhanced_chunk ''a'' ''U1'' ''theory'' ''U1_chunk_1'' ''f.txt'',
                                enhanced_chunk ''b'' ''U1'' ''practice'' ''U1_chunk_2'' ''f.txt''] ! r) ''type'')
       [0..<length [enhanced_chunk ''a'' ''U1'' ''theory'' ''U1_chunk_1'' ''f.txt'',
                    enhanced_chunk ''b'' ''U1'' ''practice'' ''U1_chunk_2'' ''f.txt'']]
   \<and> get_filtered_chunks (\<lambda>s. Inr [1]) (\<lambda>a b. 1)
         [enhanced_chunk ''a'' ''U1'' ''theory'' ''U1_chunk_1'' ''f.txt'',
          enhanced_chunk ''b'' ''U1'' ''practice'' ''U1_chunk_2'' ''f.txt''] None None ''practice'' 10
     = (Inr (py_slice_to 10
               (filter (\<lambda>r. meta_field
                   ([enhanced_chunk ''a'' ''U1'' ''theory'' ''U1_chunk_1'' ''f.txt'',
                     enhanced_chunk ''b'' ''U1'' ''practice'' ''U1_chunk_2'' ''f.txt''] ! r) ''type''
                     = Inr ''practice'')
                  [0..<length [enhanced_chunk ''a'' ''U1'' ''theory'' ''U1_chunk_1'' ''f.txt'',
                               enhanced_chunk ''b'' ''U1'' ''practice'' ''U1_chunk_2'' ''f.txt'']])),
        [enhanced_chunk ''a'' ''U1'' ''theory'' ''U1_chunk_1'' ''f.txt'',
         enhanced_chunk ''b'' ''U1'' ''practice'' ''U1_chunk_2'' ''f.txt''])"
proof -
  have h1: "\<not> truthy (None :: string list option)" by (simp add: truthy_def)
  have h2: "\<not> truthy (None :: string option)" by (simp add: truthy_def)
  have h3: "list_all (\<lambda>r. tagged ([enhanced_chunk ''a'' ''U1'' ''theory'' ''U1_chunk_1'' ''f.txt'',
                                enhanced_chunk ''b'' ''U1'' ''practice'' ''U1_chunk_2'' ''f.txt''] ! r) ''type'')
       [0..<length [enhanced_chunk ''a'' ''U1'' ''theory'' ''U1_chunk_1'' ''f.txt'',
                    enhanced_chunk ''b'' ''U1'' ''practice'' ''U1_chunk_2'' ''f.txt'']]"
    by (simp add: tagged_def manager_eval upt_rec)
  from get_filtered_chunks_mode_only [OF h1 h2 h3] h1 h2 h3 show ?thesis by blast
qed

text \<open>
  Claim C6 as stated fails: with no topics, no axis and the default mode the practice chunk
  is dropped, although \<open>max_chunks\<close> would let both chunks through.
\<close>

theorem get_filtered_chunks_default_mode_counterexample:
  "fst (get_filtered_chunks (\<lambda>s. Inr [1]) (\<lambda>a b. 1)
         [enhanced_chunk ''a'' ''U1'' ''theory'' ''U1_chunk_1'' ''f.txt'',
          enhanced_chunk ''b'' ''U1'' ''practice'' ''U1_chunk_2'' ''f.txt''] None None ''theory'' 10)
     = Inr [0]
   \<and> py_slice_to 10 [0 ..< length
         [enhanced_chunk ''a'' ''U1'' ''theory'' ''U1_chunk_1'' ''f.txt'',
          enhanced_chunk ''b'' ''U1'' ''practice'' ''U1_chunk_2'' ''f.txt'']] = [0, 1]"
  by (simp add: manager_eval upt_rec)

subsection \<open>The order of the stages\<close>

text \<open>
  Claim C3 does not hold of the code. With an axis and a topic, the axis stage keeps chunk
  0 only, but the semantic stage starts again from all of \<open>self.chunks\<close>, and chunk 1, of
  another axis, is in the result.
\<close>

theorem get_filtered_chunks_drops_axis_stage:
  "filter_by_eje
       [enhanced_chunk ''a'' ''U1'' ''theory'' ''U1_chunk_1'' ''f.txt'',
        enhanced_chunk ''b'' ''U2'' ''theory'' ''U2_chunk_2'' ''f.txt'']
       [0, 1] (Some ''U1'') = Inr [0]
   \<and> fst (get_filtered_chunks (\<lambda>s. Inr [1]) (\<lambda>a b. 1)
       [enhanced_chunk ''a'' ''U1'' ''theory'' ''U1_chunk_1'' ''f.txt'',
        enhanced_chunk ''b'' ''U2'' ''theory'' ''U2_chunk_2'' ''f.txt'']
       (Some [''x'']) (Some ''U1'') ''theory'' 10) = Inr [0, 1]"
  by (simp add: manager_eval upt_rec)

subsection \<open>The reversed stable sort\<close>


lemma insort_key_ranked:
  assumes "sorted_wrt (\<lambda>a b. ranked_before key b a) ys" and "\<forall>y \<in> set ys. y < z"
  shows "sorted_wrt (\<lambda>a b. ranked_before key b a) (insort_key key z ys)"
  using assms
proof (induction ys)
  case Nil
  then show ?case by simp
next
  case (Cons y ys)
  show ?case
  proof (cases "key z \<le> key y")
    case True
    have "\<forall>w \<in> set (y # ys). ranked_before key w z"
    proof
      fix w assume w: "w \<in> set (y # ys)"
      then have "key y \<le> key w" using Cons.prems(1) by (auto simp: ranked_before_def)
      moreover have "w < z" using w Cons.prems(2) by auto
      ultimately show "ranked_before key w z" using True by (auto simp: ranked_before_def)
    qed
    with True Cons.prems(1) show ?thesis by simp
  next
    case False
    then have "ranked_before key z y" by (simp add: ranked_before_def)
    moreover have "sorted_wrt (\<lambda>a b. ranked_before key b a) (insort_key key z ys)"
      using Cons.IH Cons.prems by simp
    ultimately show ?thesis using False Cons.prems(1) by (auto simp: set_insort_key)
  qed
qed

lemma sort_key_ranked:
  "sorted_wrt (>) zs \<Longrightarrow> sorted_wrt (\<lambda>a b. ranked_before key b a) (sort_key key zs)"
proof (induction zs)
  case Nil
  then show ?case by simp
next
  case (Cons z zs)
  then have "\<forall>y \<in> set (sort_key key zs). y < z" by auto
  moreover have "sorted_wrt (\<lambda>a b. ranked_before key b a) (sort_key key zs)"
    using Cons by simp
  ultimately show ?case by (simp add: insort_key_ranked)
qed

lemma py_sort_reverse_ranked:
  assumes "sorted_wrt (<) xs"
  shows "sorted_wrt (ranked_before key) (py_sort_reverse key xs)"
proof -
  have "sorted_wrt (>) (rev xs)" using assms by (simp add: sorted_wrt_rev)
  then have "sorted_wrt (\<lambda>a b. ranked_before key b a) (sort_key key (rev xs))"
    by (rule sort_key_ranked)
  then show ?thesis by (simp add: py_sort_reverse_def sorted_wrt_rev)
qed

lemma insort_key_cong_on:
  "f z = g z \<Longrightarrow> \<forall>y \<in> set ys. f y = g y \<Longrightarrow> insort_key f z ys = insort_key g z ys"
  by (induction ys) auto

lemma sort_key_cong_on:
  "\<forall>x \<in> set xs. f x = g x \<Longrightarrow> sort_key f xs = sort_key g xs"
proof (induction xs)
  case Nil
  then show ?case by simp
next
  case (Cons x xs)
  then have eq: "sort_key f xs = sort_key g xs" by simp
  have "insort_key f x (sort_key g xs) = insort_key g x (sort_key g xs)"
    by (rule insort_key_cong_on) (use Cons.prems in auto)
  then show ?case by (simp add: eq)
qed

lemma py_sort_reverse_cong_on:
  "\<forall>x \<in> set xs. f x = g x \<Longrightarrow> py_sort_reverse f xs = py_sort_reverse g xs"
  by (simp add: py_sort_reverse_def sort_key_cong_on)

lemma set_py_sort_reverse: "set (py_sort_reverse key xs) = set xs"
  by (simp add: py_sort_reverse_def)

lemma distinct_py_sort_reverse: "distinct (py_sort_reverse key xs) = distinct xs"
  by (simp add: py_sort_reverse_def)

subsection \<open>The semantic filter\<close>

lemma map_update_same:
  "f y = f (xs ! r) \<Longrightarrow> map f (xs[r := y]) = map f xs"
proof (cases "r < length xs")
  case True
  assume "f y = f (xs ! r)"
  with True show ?thesis by (simp add: map_update list_update_same_conv)
next
  case False
  then have "length xs \<le> r" by simp
  then show ?thesis by (simp add: list_update_beyond)
qed

lemma score_update_keeps:
  "map ch_text (heap[r := (heap ! r)\<lparr>similarity_score := s\<rparr>]) = map ch_text heap"
  "map ch_metadata (heap[r := (heap ! r)\<lparr>similarity_score := s\<rparr>]) = map ch_metadata heap"
  by (simp_all add: map_update_same)

lemma similarity_loop_keeps:
  "map ch_text (snd (similarity_loop encode1 cs q thr rs heap acc)) = map ch_text heap
   \<and> map ch_metadata (snd (similarity_loop encode1 cs q thr rs heap acc)) = map ch_metadata heap"
proof (induction rs arbitrary: heap acc)
  case Nil
  then show ?case by simp
next
  case (Cons r rs)
  show ?case
  proof (cases "ch_text (heap ! r)")
    case None
    then show ?thesis by simp
  next
    case (Some t)
    show ?thesis
    proof (cases "encode1 t")
      case (Inl e)
      with Some show ?thesis by simp
    next
      case (Inr v)
      show ?thesis
      proof (cases "cs q v > thr")
        case True
        with Some Inr show ?thesis
          using Cons.IH [of "heap[r := (heap ! r)\<lparr>similarity_score := Some (cs q v)\<rparr>]" "acc @ [r]"]
          by (simp add: score_update_keeps)
      next
        case False
        with Some Inr show ?thesis using Cons.IH [of heap acc] by simp
      qed
    qed
  qed
qed

lemma similarity_loop_result:
  assumes enc: "\<And>s. encode1 s = Inr (emb s)"
    and texts_ok: "\<forall>r \<in> set rs. r < length heap \<and> ch_text (heap ! r) = Some (t r)"
  shows "\<exists>heap'. similarity_loop encode1 cs q thr rs heap acc
            = (Inr (acc @ filter (\<lambda>r. thr < cs q (emb (t r))) rs), heap')
          \<and> length heap' = length heap
          \<and> (\<forall>i < length heap. heap' ! i =
                (if i \<in> set rs \<and> thr < cs q (emb (t i))
                 then (heap ! i)\<lparr>similarity_score := Some (cs q (emb (t i)))\<rparr>
                 else heap ! i))"
  using texts_ok
proof (induction rs arbitrary: heap acc)
  case Nil
  then show ?case by simp
next
  case (Cons r rs)
  have r: "r < length heap" "ch_text (heap ! r) = Some (t r)" using Cons.prems by auto
  show ?case
  proof (cases "thr < cs q (emb (t r))")
    case False
    from Cons.IH [of heap acc] Cons.prems obtain heap' where h:
      "similarity_loop encode1 cs q thr rs heap acc
         = (Inr (acc @ filter (\<lambda>r. thr < cs q (emb (t r))) rs), heap')"
      "length heap' = length heap"
      "\<forall>i < length heap. heap' ! i =
          (if i \<in> set rs \<and> thr < cs q (emb (t i))
           then (heap ! i)\<lparr>similarity_score := Some (cs q (emb (t i)))\<rparr> else heap ! i)"
      by auto
    show ?thesis
      apply (rule exI [of _ heap'])
      using False r h by (simp add: enc [of "t r"] Let_def)
  next
    case True
    let ?h1 = "heap[r := (heap ! r)\<lparr>similarity_score := Some (cs q (emb (t r)))\<rparr>]"
    have pre: "\<forall>r' \<in> set rs. r' < length ?h1 \<and> ch_text (?h1 ! r') = Some (t r')"
      using Cons.prems by (auto simp: nth_list_update)
    from Cons.IH [of ?h1 "acc @ [r]", OF pre] obtain heap' where h:
      "similarity_loop encode1 cs q thr rs ?h1 (acc @ [r])
         = (Inr ((acc @ [r]) @ filter (\<lambda>r. thr < cs q (emb (t r))) rs), heap')"
      "length heap' = length ?h1"
      "\<forall>i < length ?h1. heap' ! i =
          (if i \<in> set rs \<and> thr < cs q (emb (t i))
           then (?h1 ! i)\<lparr>similarity_score := Some (cs q (emb (t i)))\<rparr> else ?h1 ! i)"
      by auto
    have nth: "\<forall>i < length heap. heap' ! i =
          (if i \<in> set (r # rs) \<and> thr < cs q (emb (t i))
           then (heap ! i)\<lparr>similarity_score := Some (cs q (emb (t i)))\<rparr> else heap ! i)"
    proof (intro allI impI)
      fix i assume i: "i < length heap"
      show "heap' ! i =
          (if i \<in> set (r # rs) \<and> thr < cs q (emb (t i))
           then (heap ! i)\<lparr>similarity_score := Some (cs q (emb (t i)))\<rparr> else heap ! i)"
        using h(3) [rule_format, of i] i True by (cases "i = r") (auto simp: nth_list_update)
    qed
    show ?thesis
      apply (rule exI [of _ heap'])
      using True r h(1,2) nth by (simp add: enc [of "t r"] Let_def)
  qed
qed


lemma filter_by_vector_temas_result:
  assumes "vector_temas \<noteq> []" and "embeds_text encode1 emb"
    and "list_all (\<lambda>c. ch_text c \<noteq> None) heap"
  shows "\<exists>heap'. filter_by_vector_temas encode1 cs heap vector_temas threshold
            = (Inr (py_sort_reverse (topic_score emb cs vector_temas heap)
                      (filter (\<lambda>i. threshold < topic_score emb cs vector_temas heap i)
                         [0..<length heap])), heap')
          \<and> length heap' = length heap
          \<and> (\<forall>i < length heap. heap' ! i =
                (if threshold < topic_score emb cs vector_temas heap i
                 then (heap ! i)\<lparr>similarity_score := Some (topic_score emb cs vector_temas heap i)\<rparr>
                 else heap ! i))"
proof (cases "heap = []")
  case True
  then show ?thesis by (simp add: filter_by_vector_temas_def py_sort_reverse_def)
next
  case False
  let ?q = "emb (join_sp vector_temas)"
  let ?t = "\<lambda>r. the (ch_text (heap ! r))"
  let ?sc = "topic_score emb cs vector_temas heap"
  let ?hits = "filter (\<lambda>i. threshold < ?sc i) [0..<length heap]"
  have enc: "\<And>s. encode1 s = Inr (emb s)" using assms(2) by (simp add: embeds_text_def)
  have texts_ok: "\<forall>r \<in> set [0..<length heap]. r < length heap \<and> ch_text (heap ! r) = Some (?t r)"
    using assms(3) by (auto simp: list_all_length)
  from similarity_loop_result [of encode1 emb "[0..<length heap]" heap ?t cs ?q threshold "[]",
      OF enc texts_ok]
  obtain heap' where h:
    "similarity_loop encode1 cs ?q threshold [0..<length heap] heap [] = (Inr ?hits, heap')"
    "length heap' = length heap"
    "\<forall>i < length heap. heap' ! i =
        (if threshold < ?sc i then (heap ! i)\<lparr>similarity_score := Some (?sc i)\<rparr> else heap ! i)"
    by (auto simp: topic_score_def)
  have scored: "\<forall>r \<in> set ?hits. similarity_score (heap' ! r) = Some (?sc r)"
    using h(3) by auto
  then have all: "list_all (\<lambda>r. similarity_score (heap' ! r) \<noteq> None) ?hits"
    by (auto simp: list_all_iff)
  have key: "py_sort_reverse (\<lambda>r. the (similarity_score (heap' ! r))) ?hits
           = py_sort_reverse ?sc ?hits"
    by (rule py_sort_reverse_cong_on) (use scored in auto)
  show ?thesis
    apply (rule exI [of _ heap'])
    using False assms(1) h(1,2) all key h(3)
    by (simp add: filter_by_vector_temas_def enc [of "join_sp vector_temas"])
qed

text \<open>
  Claim C7. For a topic set that is not empty, a provider that does not fail and chunks
  that all have a text, \<open>filter_by_vector_temas\<close> returns exactly the chunks of
  \<open>self.chunks\<close> whose similarity to the joined topics is strictly above the threshold, each
  once, ordered by similarity descending and, among equal similarities, by original
  position ascending; every returned chunk carries its similarity as \<open>similarity_score\<close>.
\<close>

theorem filter_by_vector_temas_ranked:
  assumes "vector_temas \<noteq> []" and "embeds_text encode1 emb"
    and "list_all (\<lambda>c. ch_text c \<noteq> None) heap"
  shows "\<exists>result heap'.
           filter_by_vector_temas encode1 cosine_similarity heap vector_temas threshold
             = (Inr result, heap')
         \<and> set result
             = {i. i < length heap
                   \<and> threshold < topic_score emb cosine_similarity vector_temas heap i}
         \<and> distinct result
         \<and> sorted_wrt (ranked_before (topic_score emb cosine_similarity vector_temas heap)) result
         \<and> list_all (\<lambda>i. similarity_score (heap' ! i)
                            = Some (topic_score emb cosine_similarity vector_temas heap i)) result"
proof -
  let ?sc = "topic_score emb cosine_similarity vector_temas heap"
  let ?hits = "filter (\<lambda>i. threshold < ?sc i) [0..<length heap]"
  from filter_by_vector_temas_result [OF assms, of cosine_similarity threshold]
  obtain heap' where h:
    "filter_by_vector_temas encode1 cosine_similarity heap vector_temas threshold
       = (Inr (py_sort_reverse ?sc ?hits), heap')"
    "\<forall>i < length heap. heap' ! i =
        (if threshold < ?sc i then (heap ! i)\<lparr>similarity_score := Some (?sc i)\<rparr> else heap ! i)"
    by blast
  have "sorted_wrt (<) ?hits" by (simp add: sorted_wrt_filter)
  then have "sorted_wrt (ranked_before ?sc) (py_sort_reverse ?sc ?hits)"
    by (rule py_sort_reverse_ranked)
  moreover have "set (py_sort_reverse ?sc ?hits) = {i. i < length heap \<and> threshold < ?sc i}"
    by (auto simp: set_py_sort_reverse)
  moreover have "distinct (py_sort_reverse ?sc ?hits)"
    by (simp add: distinct_py_sort_reverse)
  moreover have "list_all (\<lambda>i. similarity_score (heap' ! i) = Some (?sc i))
                   (py_sort_reverse ?sc ?hits)"
    using h(2) by (auto simp: list_all_iff set_py_sort_reverse)
  ultimately show ?thesis using h(1) by blast
qed

theorem filter_by_vector_temas_ranked_witness:
  "[''x''] \<noteq> []
   \<and> embeds_text (\<lambda>s. Inr [real (length s)]) (\<lambda>s. [real (length s)])
   \<and> list_all (\<lambda>c. ch_text c \<noteq> None)
        [enhanced_chunk ''aaaa'' ''U1'' ''theory'' ''U1_chunk_1'' ''f.txt'',
         enhanced_chunk ''bb'' ''U1'' ''theory'' ''U1_chunk_2'' ''f.txt'',
         enhanced_chunk ''cccccc'' ''U2'' ''theory'' ''U2_chunk_3'' ''f.txt'']
   \<and> fst (filter_by_vector_temas (\<lambda>s. Inr [real (length s)]) (\<lambda>a b. if hd b = 2 then 0 else 1)
        [enhanced_chunk ''aaaa'' ''U1'' ''theory'' ''U1_chunk_1'' ''f.txt'',
         enhanced_chunk ''bb'' ''U1'' ''theory'' ''U1_chunk_2'' ''f.txt'',
         enhanced_chunk ''cccccc'' ''U2'' ''theory'' ''U2_chunk_3'' ''f.txt'']
        [''x''] (3 / 10)) = Inr [0, 2]
   \<and> (\<exists>result heap'.
         filter_by_vector_temas (\<lambda>s. Inr [real (length s)]) (\<lambda>a b. if hd b = 2 then 0 else 1)
           [enhanced_chunk ''aaaa'' ''U1'' ''theory'' ''U1_chunk_1'' ''f.txt'',
            enhanced_chunk ''bb'' ''U1'' ''theory'' ''U1_chunk_2'' ''f.txt'',
            enhanced_chunk ''cccccc'' ''U2'' ''theory'' ''U2_chunk_3'' ''f.txt'']
           [''x''] (3 / 10) = (Inr result, heap')
       \<and> set result
           = {i. i < length
                   [enhanced_chunk ''aaaa'' ''U1'' ''theory'' ''U1_chunk_1'' ''f.txt'',
                    enhanced_chunk ''bb'' ''U1'' ''theory'' ''U1_chunk_2'' ''f.txt'',
                    enhanced_chunk ''cccccc'' ''U2'' ''theory'' ''U2_chunk_3'' ''f.txt'']
                 \<and> 3 / 10 < topic_score (\<lambda>s. [real (length s)]) (\<lambda>a b. if hd b = 2 then 0 else 1) [''x'']
                     [enhanced_chunk ''aaaa'' ''U1'' ''theory'' ''U1_chunk_1'' ''f.txt'',
                      enhanced_chunk ''bb'' ''U1'' ''theory'' ''U1_chunk_2'' ''f.txt'',
                      enhanced_chunk ''cccccc'' ''U2'' ''theory'' ''U2_chunk_3'' ''f.txt''] i}
       \<and> distinct result
       \<and> sorted_wrt (ranked_before
            (topic_score (\<lambda>s. [real (length s)]) (\<lambda>a b. if hd b = 2 then 0 else 1) [''x'']
               [enhanced_chunk ''aaaa'' ''U1'' ''theory'' ''U1_chunk_1'' ''f.txt'',
                enhanced_chunk ''bb'' ''U1'' ''theory'' ''U1_chunk_2'' ''f.txt'',
                enhanced_chunk ''cccccc'' ''U2'' ''theory'' ''U2_chunk_3'' ''f.txt''])) result
       \<and> list_all (\<lambda>i. similarity_score (heap' ! i)
            = Some (topic_score (\<lambda>s. [real (length s)]) (\<lambda>a b. if hd b = 2 then 0 else 1) [''x'']
                [enhanced_chunk ''aaaa'' ''U1'' ''theory'' ''U1_chunk_1'' ''f.txt'',
                 enhanced_chunk ''bb'' ''U1'' ''theory'' ''U1_chunk_2'' ''f.txt'',
                 enhanced_chunk ''cccccc'' ''U2'' ''theory'' ''U2_chunk_3'' ''f.txt''] i)) result)"
proof -
  have h1: "[''x''] \<noteq> []" by simp
  have h2: "embeds_text (\<lambda>s. Inr [real (length s)]) (\<lambda>s. [real (length s)])"
    by (simp add: embeds_text_def)
  have h3: "list_all (\<lambda>c. ch_text c \<noteq> None)
        [enhanced_chunk ''aaaa'' ''U1'' ''theory'' ''U1_chunk_1'' ''f.txt'',
         enhanced_chunk ''bb'' ''U1'' ''theory'' ''U1_chunk_2'' ''f.txt'',
         enhanced_chunk ''cccccc'' ''U2'' ''theory'' ''U2_chunk_3'' ''f.txt'']"
    by (simp add: enhanced_chunk_def)
  have run: "fst (filter_by_vector_temas (\<lambda>s. Inr [real (length s)]) (\<lambda>a b. if hd b = 2 then 0 else 1)
        [enhanced_chunk ''aaaa'' ''U1'' ''theory'' ''U1_chunk_1'' ''f.txt'',
         enhanced_chunk ''bb'' ''U1'' ''theory'' ''U1_chunk_2'' ''f.txt'',
         enhanced_chunk ''cccccc'' ''U2'' ''theory'' ''U2_chunk_3'' ''f.txt'']
        [''x''] (3 / 10)) = Inr [0, 2]"
    by (simp add: manager_eval upt_rec)
  from filter_by_vector_temas_ranked [OF h1 h2 h3, of "\<lambda>a b. if hd b = 2 then 0 else 1" "3 / 10"] h1 h2 h3 run
  show ?thesis by blast
qed

subsection \<open>What filtering changes in the loaded chunks\<close>

lemma filter_by_vector_temas_keeps:
  "map ch_text (snd (filter_by_vector_temas encode1 cs heap ts thr)) = map ch_text heap
   \<and> map ch_metadata (snd (filter_by_vector_temas encode1 cs heap ts thr)) = map ch_metadata heap"
proof (cases "ts = [] \<or> heap = []")
  case True
  then show ?thesis by (auto simp: filter_by_vector_temas_def)
next
  case False
  show ?thesis
  proof (cases "encode1 (join_sp ts)")
    case (Inl e)
    with False show ?thesis by (simp add: filter_by_vector_temas_def)
  next
    case (Inr q)
    obtain res heap' where sl:
      "similarity_loop encode1 cs q thr [0..<length heap] heap [] = (res, heap')"
      by (cases "similarity_loop encode1 cs q thr [0..<length heap] heap []")
    from similarity_loop_keeps [of encode1 cs q thr "[0..<length heap]" heap "[]"] sl
    have k: "map ch_text heap' = map ch_text heap" "map ch_metadata heap' = map ch_metadata heap"
      by simp_all
    have "snd (filter_by_vector_temas encode1 cs heap ts thr) = heap'"
      using False Inr sl by (cases res) (simp_all add: filter_by_vector_temas_def)
    with k show ?thesis by simp
  qed
qed

lemma get_filtered_chunks_heap:
  "snd (get_filtered_chunks encode1 cs heap vector_temas eje_activo mode max_chunks) = heap
   \<or> (truthy vector_temas
      \<and> snd (get_filtered_chunks encode1 cs heap vector_temas eje_activo mode max_chunks)
          = snd (filter_by_vector_temas encode1 cs heap (the vector_temas) (3 / 10)))"
proof (cases "if truthy eje_activo then filter_by_eje heap [0..<length heap] eje_activo
              else Inr [0..<length heap]")
  case (Inl e)
  then show ?thesis by (simp add: get_filtered_chunks_def)
next
  case (Inr chunks1)
  show ?thesis
  proof (cases "truthy vector_temas")
    case False
    with Inr show ?thesis
      by (cases "filter_by_mode heap chunks1 mode") (simp_all add: get_filtered_chunks_def)
  next
    case True
    obtain res heap' where f:
      "filter_by_vector_temas encode1 cs heap (the vector_temas) (3 / 10) = (res, heap')"
      by (cases "filter_by_vector_temas encode1 cs heap (the vector_temas) (3 / 10)")
    show ?thesis
    proof (cases res)
      case (Inl e)
      with Inr True f show ?thesis by (simp add: get_filtered_chunks_def)
    next
      case r2: (Inr chunks2)
      with Inr True f show ?thesis
        by (cases "filter_by_mode heap' chunks2 mode") (simp_all add: get_filtered_chunks_def)
    qed
  qed
qed

text \<open>
  Claim C8, as amended. Filtering keeps the number, the order, the text and the metadata of
  the loaded chunks, and without topics it changes nothing at all. With topics the score
  is written into the loaded chunks themselves (claim C7 says into which).
\<close>

theorem filtering_keeps_text_and_metadata:
  "map ch_text (snd (filter_by_vector_temas encode1 cosine_similarity heap topics threshold))
     = map ch_text heap
   \<and> map ch_metadata (snd (filter_by_vector_temas encode1 cosine_similarity heap topics threshold))
     = map ch_metadata heap
   \<and> map ch_text (snd (get_filtered_chunks encode1 cosine_similarity heap vector_temas
                         eje_activo mode max_chunks)) = map ch_text heap
   \<and> map ch_metadata (snd (get_filtered_chunks encode1 cosine_similarity heap vector_temas
                             eje_activo mode max_chunks)) = map ch_metadata heap
   \<and> snd (filter_by_vector_temas encode1 cosine_similarity heap [] threshold) = heap
   \<and> snd (get_filtered_chunks encode1 cosine_similarity heap None eje_activo mode max_chunks)
     = heap
   \<and> snd (get_filtered_chunks encode1 cosine_similarity heap (Some []) eje_activo mode max_chunks)
     = heap"
proof -
  note k = filter_by_vector_temas_keeps [of encode1 cosine_similarity heap]
  have g: "map ch_text (snd (get_filtered_chunks encode1 cosine_similarity heap vector_temas
                         eje_activo mode max_chunks)) = map ch_text heap
         \<and> map ch_metadata (snd (get_filtered_chunks encode1 cosine_similarity heap vector_temas
                             eje_activo mode max_chunks)) = map ch_metadata heap"
    using get_filtered_chunks_heap [of encode1 cosine_similarity heap vector_temas eje_activo
        mode max_chunks] k [of "the vector_temas" "3 / 10"]
    by auto
  have n: "snd (get_filtered_chunks encode1 cosine_similarity heap None eje_activo mode max_chunks)
        = heap"
    using get_filtered_chunks_heap [of encode1 cosine_similarity heap None eje_activo
        mode max_chunks] by (simp add: truthy_def)
  have e: "snd (get_filtered_chunks encode1 cosine_similarity heap (Some []) eje_activo mode
        max_chunks) = heap"
    using get_filtered_chunks_heap [of encode1 cosine_similarity heap "Some []" eje_activo
        mode max_chunks] by (simp add: truthy_def)
  have f: "snd (filter_by_vector_temas encode1 cosine_similarity heap [] threshold) = heap"
    by (simp add: filter_by_vector_temas_def)
  from k [of topics threshold] g n e f show ?thesis by simp
qed

text \<open>
  Claim C8 as stated fails: a loaded chunk has no score before the call and carries one
  after it.
\<close>

theorem filtering_writes_score_counterexample:
  "map similarity_score [enhanced_chunk ''a'' ''U1'' ''theory'' ''U1_chunk_1'' ''f.txt''] = [None]
   \<and> map similarity_score
       (snd (get_filtered_chunks (\<lambda>s. Inr [1]) (\<lambda>a b. 1)
          [enhanced_chunk ''a'' ''U1'' ''theory'' ''U1_chunk_1'' ''f.txt'']
          (Some [''x'']) None ''theory'' 10)) = [Some 1]
   \<and> map similarity_score
       (snd (filter_by_vector_temas (\<lambda>s. Inr [1]) (\<lambda>a b. 1)
          [enhanced_chunk ''a'' ''U1'' ''theory'' ''U1_chunk_1'' ''f.txt'']
          [''x''] (3 / 10))) = [Some 1]"
  by (simp add: manager_eval upt_rec)

end
